theory Spec2Isabelle
  imports
    Main
    "HOL-Library.Extended_Nat"
    "HOL-Library.Product_Lexorder"
    "HOL-Library.Multiset"
    "HOL-Library.Sublist"
begin

section \<open>Data model\<close>

text \<open>
  The three classes of \<^verbatim>\<open>app/visual\<close> each set exactly the attributes their
  constructor receives. The Python attributes are called \<^verbatim>\<open>id\<close>, \<^verbatim>\<open>name\<close> and
  \<^verbatim>\<open>content\<close> in every class; the record fields carry the class name in front, since
  record fields of one theory share a name space (and \<open>id\<close> is the identity function of
  HOL). Text is a list of characters; the character classes of the regular expressions
  (\<^verbatim>\<open>\d\<close>, \<^verbatim>\<open>\s\<close>) and of \<^verbatim>\<open>str.strip\<close> are read on the ASCII range.
\<close>

record Control =
  control_id :: string
  control_name :: string
  control_content :: string

record Document =
  document_id :: string
  document_name :: string
  document_content :: string

record SelectedControl =
  selected_id :: string
  selected_name :: string
  relevant_document_ids :: "string list"

text \<open>
  Dictionaries with string keys, whose values are strings or dictionaries again. A
  dictionary is the list of its items in the order of the literal that builds it.
\<close>

datatype py_value = Str string | Dict "(string \<times> py_value) list"

fun dict_get :: "py_value \<Rightarrow> string \<Rightarrow> py_value option" where
  "dict_get (Dict items) k = map_of items k"
| "dict_get (Str s) k = None"

fun dict_keys :: "py_value \<Rightarrow> string set" where
  "dict_keys (Dict items) = set (map fst items)"
| "dict_keys (Str s) = {}"


section \<open>Text, numbers and sorting\<close>

datatype error = FileNotFoundError | ValueError | IndexError

definition newline :: char where
  "newline = CHR 0x0A"

definition is_digit :: "char \<Rightarrow> bool" where
  "is_digit c \<longleftrightarrow> c \<in> set ''0123456789''"

text \<open>Python's white space on the ASCII range: TAB, LF, VT, FF, CR, FS, GS, RS, US, space.\<close>

definition is_space :: "char \<Rightarrow> bool" where
  "is_space c \<longleftrightarrow>
     c \<in> set [CHR 0x09, CHR 0x0A, CHR 0x0B, CHR 0x0C, CHR 0x0D,
              CHR 0x1C, CHR 0x1D, CHR 0x1E, CHR 0x1F, CHR 0x20]"

definition digit_run :: "string \<Rightarrow> bool" where
  "digit_run s \<longleftrightarrow> s \<noteq> [] \<and> list_all is_digit s"

definition digit_value :: "char \<Rightarrow> nat" where
  "digit_value c = of_char c - 48"

definition digits_value :: "string \<Rightarrow> nat" where
  "digits_value s = foldl (\<lambda>n c. 10 * n + digit_value c) 0 s"

text \<open>
  \<^verbatim>\<open>int(s)\<close> and \<^verbatim>\<open>float(s)\<close>. On a non-empty run of digits both return a number.
  On every other string the model raises \<^verbatim>\<open>ValueError\<close>; Python accepts some of
  those (a sign, white space around the number, an exponent), so the model raises at
  least where Python does. Integers are unbounded, and the interpreter's configurable
  limit on the number of digits that \<^verbatim>\<open>int\<close> converts is not modelled.
\<close>

definition py_int :: "string \<Rightarrow> error + nat" where
  "py_int s = (if digit_run s then Inr (digits_value s) else Inl ValueError)"

fun bit_length :: "nat \<Rightarrow> nat" where
  "bit_length n = (if n = 0 then 0 else Suc (bit_length (n div 2)))"

declare bit_length.simps [simp del]

text \<open>
  The double nearest to a natural number, as \<^verbatim>\<open>float\<close> computes it from a decimal
  literal: exact below \<open>2^53\<close>; above, the number is rounded to 53 significant bits,
  ties to the even mantissa, and becomes infinity from \<open>2^1024\<close> on. Every such double is
  a natural number or infinity, so the value is an \<open>enat\<close> and doubles compare as
  \<open>enat\<close>s do.
\<close>

definition float_of_nat :: "nat \<Rightarrow> enat" where
  "float_of_nat n =
     (if n < 2 ^ 53 then enat n
      else let e = bit_length n - 53;
               q = n div 2 ^ e;
               r = n mod 2 ^ e;
               half = 2 ^ (e - 1);
               q' = (if half < r \<or> (r = half \<and> odd q) then q + 1 else q);
               v = q' * 2 ^ e
           in if 2 ^ 1024 \<le> v then \<infinity> else enat v)"

definition py_float :: "string \<Rightarrow> error + enat" where
  "py_float s = (if digit_run s then Inr (float_of_nat (digits_value s)) else Inl ValueError)"

text \<open>\<^verbatim>\<open>s.split(sep)\<close> for a separator of one character: never the empty list.\<close>

fun split_on :: "char \<Rightarrow> string \<Rightarrow> string list" where
  "split_on sep [] = [[]]"
| "split_on sep (c # cs) =
     (if c = sep then [] # split_on sep cs
      else (case split_on sep cs of
              [] \<Rightarrow> [[c]]
            | l # ls \<Rightarrow> (c # l) # ls))"

definition strip :: "string \<Rightarrow> string" where
  "strip s = rev (dropWhile is_space (rev (dropWhile is_space s)))"

definition lstrip_chars :: "char \<Rightarrow> string \<Rightarrow> string" where
  "lstrip_chars ch s = dropWhile (\<lambda>c. c = ch) s"

definition lower_char :: "char \<Rightarrow> char" where
  "lower_char c =
     (case map_of (zip ''ABCDEFGHIJKLMNOPQRSTUVWXYZ'' ''abcdefghijklmnopqrstuvwxyz'') c of
        Some l \<Rightarrow> l
      | None \<Rightarrow> c)"

definition lower :: "string \<Rightarrow> string" where
  "lower s = map lower_char s"

text \<open>
  \<^verbatim>\<open>xs.sort(key=...)\<close>: the keys are computed first, one call per element in list
  order, and the first call that raises ends the sort with its exception; then the
  elements are sorted by key, stably.
\<close>

fun decorate :: "('a \<Rightarrow> error + 'k) \<Rightarrow> 'a list \<Rightarrow> error + ('k \<times> 'a) list" where
  "decorate key [] = Inr []"
| "decorate key (x # xs) =
     (case key x of
        Inl e \<Rightarrow> Inl e
      | Inr k \<Rightarrow> (case decorate key xs of
                    Inl e \<Rightarrow> Inl e
                  | Inr kxs \<Rightarrow> Inr ((k, x) # kxs)))"

definition list_sort :: "('a \<Rightarrow> error + 'k::linorder) \<Rightarrow> 'a list \<Rightarrow> error + 'a list" where
  "list_sort key xs =
     (case decorate key xs of
        Inl e \<Rightarrow> Inl e
      | Inr kxs \<Rightarrow> Inr (map snd (sort_key fst kxs)))"

section \<open>The regular expressions\<close>

text \<open>
  \<^verbatim>\<open>/pages/(\d+)\<close> tried at the start of a text: the group and the text after the
  match. \<^verbatim>\<open>\d+\<close> is greedy and nothing follows it in the pattern.
\<close>

definition match_pages :: "string \<Rightarrow> (string \<times> string) option" where
  "match_pages s =
     (if prefix ''/pages/'' s
      then let r = drop 7 s; ds = takeWhile is_digit r
           in if ds = [] then None else Some (ds, dropWhile is_digit r)
      else None)"

lemma match_pages_shorter: "match_pages s = Some (ds, rest) \<Longrightarrow> length rest < length s"
proof -
  assume m: "match_pages s = Some (ds, rest)"
  then have p: "prefix ''/pages/'' s" and r: "rest = dropWhile is_digit (drop 7 s)"
    by (auto simp: match_pages_def Let_def split: if_splits)
  from p have "7 \<le> length s" by (auto simp: prefix_def)
  moreover have "length rest \<le> length (drop 7 s)"
    unfolding r by (rule length_dropWhile_le)
  ultimately show ?thesis by simp
qed

text \<open>
  \<^verbatim>\<open>pattern.findall(content)\<close>: the groups of the matches found from left to right,
  the search resuming where the last match ended.
\<close>

function findall_pages :: "string \<Rightarrow> string list" where
  "findall_pages [] = []"
| "findall_pages (c # cs) =
     (case match_pages (c # cs) of
        Some (ds, rest) \<Rightarrow> ds # findall_pages rest
      | None \<Rightarrow> findall_pages cs)"
  by pat_completeness auto
termination
  by (relation "measure length") (auto dest: match_pages_shorter)

text \<open>
  The file-name pattern of controls and selection reports,
  \<^verbatim>\<open>^(\d+\.\d+)\s+(.+?)\.md$\<close>, in the steps of the backtracking matcher.

  The end of the pattern, \<^verbatim>\<open>(.+?)\.md$\<close>: the lazy group takes one character, then
  one more at a time until what is left is \<^verbatim>\<open>.md\<close> at the end of the text. Without
  the MULTILINE flag \<^verbatim>\<open>$\<close> also matches before a final newline, and \<^verbatim>\<open>.\<close> matches
  every character but the newline.
\<close>

fun lazy_name :: "string \<Rightarrow> string \<Rightarrow> string option" where
  "lazy_name acc [] = None"
| "lazy_name acc (c # cs) =
     (if c # cs = ''.md'' \<or> c # cs = ''.md'' @ [newline] then Some acc
      else if c = newline then None
      else lazy_name (acc @ [c]) cs)"

fun name_group :: "string \<Rightarrow> string option" where
  "name_group [] = None"
| "name_group (c # cs) = (if c = newline then None else lazy_name [c] cs)"

text \<open>
  \<^verbatim>\<open>\s+\<close> is greedy: it takes the whole run of white space, and gives back one
  character at a time, down to one, as long as the rest of the pattern fails.
  \<open>give_back k s\<close> tries the rest after \<open>k\<close>, \<open>k - 1\<close>, ..., \<open>1\<close> characters of \<open>s\<close>.
\<close>

fun give_back :: "nat \<Rightarrow> string \<Rightarrow> string option" where
  "give_back 0 s = None"
| "give_back (Suc k) s =
     (case name_group (drop (Suc k) s) of
        Some n \<Rightarrow> Some n
      | None \<Rightarrow> give_back k s)"

text \<open>
  The two \<^verbatim>\<open>\d+\<close> take their whole run of digits: a shorter match would leave a digit
  where the pattern wants the dot or white space. The result is \<open>(group 1, group 2)\<close>.
\<close>

definition match_control_filename :: "string \<Rightarrow> (string \<times> string) option" where
  "match_control_filename filename =
     (let major = takeWhile is_digit filename;
          r1 = dropWhile is_digit filename
      in if major = [] then None
         else (case r1 of
                 [] \<Rightarrow> None
               | c # r2 \<Rightarrow>
                   if c \<noteq> CHR ''.'' then None
                   else let minor = takeWhile is_digit r2;
                            r3 = dropWhile is_digit r2
                        in if minor = [] then None
                           else (case give_back (length (takeWhile is_space r3)) r3 of
                                   None \<Rightarrow> None
                                 | Some name \<Rightarrow> Some (major @ ''.'' @ minor, name))))"

text \<open>The file-name pattern of reference documents, \<^verbatim>\<open>^(\d+)\.md$\<close>.\<close>

definition match_document_filename :: "string \<Rightarrow> string option" where
  "match_document_filename filename =
     (let ds = takeWhile is_digit filename;
          r = dropWhile is_digit filename
      in if ds \<noteq> [] \<and> (r = ''.md'' \<or> r = ''.md'' @ [newline]) then Some ds else None)"




section \<open>The file system and the log\<close>

text \<open>
  A load operation sees one directory. The path may not exist (\<open>None\<close>); if it does,
  the directory is the list of its entries in the order the file system lists them, each
  with its name and the text that \<^verbatim>\<open>open\<close> and \<^verbatim>\<open>read\<close> return, or \<open>None\<close> when
  either raises. The \<^verbatim>\<open>print\<close>ed warnings are collected in a log, in order.
\<close>

type_synonym dir_entry = "string \<times> string option"

type_synonym directory = "dir_entry list option"

datatype warning = Could_not_read string | Pattern_mismatch string

text \<open>\<^verbatim>\<open>path.glob("*.md")\<close>: the entries whose name ends in \<^verbatim>\<open>.md\<close>.\<close>

definition glob_md :: "dir_entry list \<Rightarrow> dir_entry list" where
  "glob_md entries = filter (\<lambda>entry. suffix ''.md'' (fst entry)) entries"

section \<open>Controls\<close>

text \<open>
  The sort key \<^verbatim>\<open>(float(x.id.split(".")[0]), float(x.id.split(".")[1]))\<close>, as a
  function of the id. The first component is computed first.
\<close>

definition id_sort_key :: "string \<Rightarrow> error + (enat \<times> enat)" where
  "id_sort_key i =
     (case split_on CHR ''.'' i of
        [] \<Rightarrow> Inl IndexError
      | a # rest \<Rightarrow>
          (case py_float a of
             Inl e \<Rightarrow> Inl e
           | Inr x \<Rightarrow>
               (case rest of
                  [] \<Rightarrow> Inl IndexError
                | b # _ \<Rightarrow>
                    (case py_float b of
                       Inl e \<Rightarrow> Inl e
                     | Inr y \<Rightarrow> Inr (x, y)))))"

text \<open>The body of the loop over the files: the list so far and the log so far, updated.\<close>

definition load_controls_step ::
  "Control list \<times> warning list \<Rightarrow> dir_entry \<Rightarrow> Control list \<times> warning list" where
  "load_controls_step state entry =
     (case state of (controls, warnings) \<Rightarrow>
      case entry of (filename, file) \<Rightarrow>
        (case match_control_filename filename of
           Some (cid, cname) \<Rightarrow>
             (case file of
                Some content \<Rightarrow>
                  (controls @ [\<lparr>control_id = cid, control_name = cname,
                                 control_content = content\<rparr>], warnings)
              | None \<Rightarrow> (controls, warnings @ [Could_not_read filename]))
         | None \<Rightarrow> (controls, warnings @ [Pattern_mismatch filename])))"

definition load_controls :: "directory \<Rightarrow> error + (Control list \<times> warning list)" where
  "load_controls controls_dir =
     (case controls_dir of
        None \<Rightarrow> Inl FileNotFoundError
      | Some entries \<Rightarrow>
          (case foldl load_controls_step ([], []) (glob_md entries) of (controls, warnings) \<Rightarrow>
             (case list_sort (\<lambda>x. id_sort_key (control_id x)) controls of
                Inl e \<Rightarrow> Inl e
              | Inr sorted_controls \<Rightarrow> Inr (sorted_controls, warnings))))"

section \<open>Reference documents\<close>

text \<open>
  The name of a document, from its content and its id: the first element of
  \<^verbatim>\<open>content.split("\n")\<close>, stripped; without its leading \<^verbatim>\<open>#\<close>s and stripped again
  if it starts with one; the id if that leaves nothing.
\<close>

definition derive_document_name :: "string \<Rightarrow> string \<Rightarrow> string" where
  "derive_document_name content did =
     (let lines = split_on newline content;
          dname = (case lines of
                     [] \<Rightarrow> ''''
                   | l # _ \<Rightarrow>
                       let first_line = strip l
                       in if prefix ''#'' first_line
                          then strip (lstrip_chars CHR ''#'' first_line)
                          else first_line)
      in if dname = [] then did else dname)"

definition load_documents_step ::
  "Document list \<times> warning list \<Rightarrow> dir_entry \<Rightarrow> Document list \<times> warning list" where
  "load_documents_step state entry =
     (case state of (documents, warnings) \<Rightarrow>
      case entry of (filename, file) \<Rightarrow>
        (case match_document_filename filename of
           Some did \<Rightarrow>
             (case file of
                Some content \<Rightarrow>
                  (documents @ [\<lparr>document_id = did,
                                  document_name = derive_document_name content did,
                                  document_content = content\<rparr>], warnings)
              | None \<Rightarrow> (documents, warnings @ [Could_not_read filename]))
         | None \<Rightarrow> (documents, warnings @ [Pattern_mismatch filename])))"

definition load_documents :: "directory \<Rightarrow> error + (Document list \<times> warning list)" where
  "load_documents documents_dir =
     (case documents_dir of
        None \<Rightarrow> Inl FileNotFoundError
      | Some entries \<Rightarrow>
          (case foldl load_documents_step ([], []) (glob_md entries) of (documents, warnings) \<Rightarrow>
             (case list_sort (\<lambda>x. py_int (document_id x)) documents of
                Inl e \<Rightarrow> Inl e
              | Inr sorted_documents \<Rightarrow> Inr (sorted_documents, warnings))))"

section \<open>Selection reports\<close>

text \<open>
  \<^verbatim>\<open>found_ids = set(matches)\<close> is then iterated by the list comprehension. The order in
  which a set of strings is iterated is not fixed by the language (it follows the hashes
  of the strings, which change from one interpreter process to the next), so the order
  is a parameter: \<open>set_iter matches\<close> is the sequence in which the set built from
  \<open>matches\<close> is iterated. Whatever the order, it lists each element of the set once.
\<close>

definition iterates_set :: "(string list \<Rightarrow> string list) \<Rightarrow> bool" where
  "iterates_set set_iter \<longleftrightarrow> (\<forall>xs. distinct (set_iter xs) \<and> set (set_iter xs) = set xs)"

definition extract_document_ids_from_content ::
  "(string list \<Rightarrow> string list) \<Rightarrow> string \<Rightarrow> string set \<Rightarrow> error + string list" where
  "extract_document_ids_from_content set_iter content available_document_ids =
     (let matches = findall_pages content;
          found_ids = set_iter matches;
          relevant_ids = filter (\<lambda>doc_id. doc_id \<in> available_document_ids) found_ids
      in list_sort py_int relevant_ids)"

text \<open>
  The \<^verbatim>\<open>try\<close> block of the loop encloses the extraction, so an exception of the
  extraction is reported like an unreadable file.
\<close>

definition load_selected_controls_step ::
  "(string list \<Rightarrow> string list) \<Rightarrow> string set \<Rightarrow>
   SelectedControl list \<times> warning list \<Rightarrow> dir_entry \<Rightarrow> SelectedControl list \<times> warning list" where
  "load_selected_controls_step set_iter available_document_ids state entry =
     (case state of (selected_controls, warnings) \<Rightarrow>
      case entry of (filename, file) \<Rightarrow>
        if lower filename = ''template.md'' then (selected_controls, warnings)
        else (case match_control_filename filename of
                Some (cid, cname) \<Rightarrow>
                  (case file of
                     Some content \<Rightarrow>
                       (case extract_document_ids_from_content set_iter content
                               available_document_ids of
                          Inr ids \<Rightarrow>
                            (selected_controls @
                               [\<lparr>selected_id = cid, selected_name = cname,
                                 relevant_document_ids = ids\<rparr>], warnings)
                        | Inl e \<Rightarrow> (selected_controls, warnings @ [Could_not_read filename]))
                   | None \<Rightarrow> (selected_controls, warnings @ [Could_not_read filename]))
              | None \<Rightarrow>
                  if lower filename \<noteq> ''template.md''
                  then (selected_controls, warnings @ [Pattern_mismatch filename])
                  else (selected_controls, warnings)))"

definition load_selected_controls ::
  "(string list \<Rightarrow> string list) \<Rightarrow> directory \<Rightarrow> Document list \<Rightarrow>
   error + (SelectedControl list \<times> warning list)" where
  "load_selected_controls set_iter selected_documents_dir documents =
     (case selected_documents_dir of
        None \<Rightarrow> Inl FileNotFoundError
      | Some entries \<Rightarrow>
          (let available_document_ids = document_id ` set documents
           in case foldl (load_selected_controls_step set_iter available_document_ids)
                     ([], []) (glob_md entries) of (selected_controls, warnings) \<Rightarrow>
                (case list_sort (\<lambda>x. id_sort_key (selected_id x)) selected_controls of
                   Inl e \<Rightarrow> Inl e
                 | Inr sorted_controls \<Rightarrow> Inr (sorted_controls, warnings))))"

section \<open>Document metadata of the selector\<close>





section \<open>Lookup by id\<close>

text \<open>
  \<^verbatim>\<open>
  for control in controls:
      if control.id == control_id:
          return control
  return None
  \<close>
  The loop only reads the list; the model is a function of the list and the id.
\<close>

fun get_control_by_id :: "Control list \<Rightarrow> string \<Rightarrow> Control option" where
  "get_control_by_id [] cid = None"
| "get_control_by_id (control # controls) cid =
     (if control_id control = cid then Some control else get_control_by_id controls cid)"

fun get_document_by_id :: "Document list \<Rightarrow> string \<Rightarrow> Document option" where
  "get_document_by_id [] did = None"
| "get_document_by_id (document # documents) did =
     (if document_id document = did then Some document else get_document_by_id documents did)"

text \<open>
  What "the first element whose id equals the requested id" means for a list \<open>xs\<close>, a
  projection \<open>key\<close> and a result \<open>r\<close>: either nothing in the list has the id and the
  result is \<open>None\<close>, or the list splits around the result with no match before it.
\<close>

definition first_with_id :: "('a \<Rightarrow> string) \<Rightarrow> 'a list \<Rightarrow> string \<Rightarrow> 'a option \<Rightarrow> bool" where
  "first_with_id key xs i r \<longleftrightarrow>
     (case r of
        None \<Rightarrow> i \<notin> key ` set xs
      | Some x \<Rightarrow> key x = i \<and>
          (\<exists>before after. xs = before @ x # after \<and> i \<notin> key ` set before))"

section \<open>Graph assembly\<close>

text \<open>
  \<^verbatim>\<open>create_elements\<close> (the same text in \<^verbatim>\<open>presenter.py\<close> and
  \<^verbatim>\<open>presenter_layout.py\<close>) builds a list of nested dictionaries with string leaves.
\<close>

definition control_element :: "Control \<Rightarrow> py_value" where
  "control_element control =
     Dict [(''data'', Dict [(''id'', Str (control_id control)),
                            (''label'', Str (control_id control @ '' '' @ control_name control)),
                            (''classes'', Str ''Control'')])]"

definition document_element :: "Document \<Rightarrow> py_value" where
  "document_element document =
     Dict [(''data'', Dict [(''id'', Str (document_id document)),
                            (''label'', Str (document_name document))]),
           (''classes'', Str ''Document'')]"

definition edge_element :: "SelectedControl \<Rightarrow> string \<Rightarrow> py_value" where
  "edge_element selected_control relevant_document_id =
     Dict [(''data'', Dict [(''source'', Str (selected_id selected_control)),
                            (''target'', Str relevant_document_id)])]"

text \<open>The three loops, each appending to \<^verbatim>\<open>elements\<close>.\<close>

definition create_elements ::
  "Control list \<Rightarrow> Document list \<Rightarrow> SelectedControl list \<Rightarrow> py_value list" where
  "create_elements controls documents selected_controls =
     (let elements = [];
          elements = foldl (\<lambda>elements control. elements @ [control_element control])
                       elements controls;
          elements = foldl (\<lambda>elements document. elements @ [document_element document])
                       elements documents;
          elements = foldl (\<lambda>elements selected_control.
                         foldl (\<lambda>elements relevant_document_id.
                                  elements @ [edge_element selected_control relevant_document_id])
                           elements (relevant_document_ids selected_control))
                       elements selected_controls
      in elements)"

text \<open>Reading an element back: an entry of its \<^verbatim>\<open>data\<close> dictionary, and its kind marker
  wherever the element keeps it.\<close>

definition data_get :: "py_value \<Rightarrow> string \<Rightarrow> py_value option" where
  "data_get e k = (case dict_get e ''data'' of Some d \<Rightarrow> dict_get d k | None \<Rightarrow> None)"

definition data_keys :: "py_value \<Rightarrow> string set" where
  "data_keys e = (case dict_get e ''data'' of Some d \<Rightarrow> dict_keys d | None \<Rightarrow> {})"

definition element_kind :: "py_value \<Rightarrow> py_value option" where
  "element_kind e =
     (case dict_get e ''classes'' of Some k \<Rightarrow> Some k | None \<Rightarrow> data_get e ''classes'')"

definition node_view :: "py_value \<Rightarrow> py_value option \<times> py_value option \<times> py_value option" where
  "node_view e = (data_get e ''id'', data_get e ''label'', element_kind e)"

definition edge_view :: "py_value \<Rightarrow> py_value option \<times> py_value option" where
  "edge_view e = (data_get e ''source'', data_get e ''target'')"

definition placement ::
  "py_value \<Rightarrow> string set \<times> string set \<times> py_value option \<times> py_value option" where
  "placement e = (dict_keys e, data_keys e, dict_get e ''classes'', data_get e ''classes'')"

section \<open>The presenter\<close>

text \<open>
  \<^verbatim>\<open>main\<close> of \<^verbatim>\<open>presenter.py\<close> up to the element list it hands to the layout. The
  three directories are those named by the constants \<^verbatim>\<open>CONTROLS_DIR\<close>,
  \<^verbatim>\<open>DOCUMENTS_DIR\<close> and \<^verbatim>\<open>SELECTED_DOCUMENTS_DIR\<close>. Between the loads \<^verbatim>\<open>main\<close> logs
  \<^verbatim>\<open>controls[0]\<close>, \<^verbatim>\<open>documents[0]\<close> and \<^verbatim>\<open>selected_controls[2]\<close>, each of which
  raises \<^verbatim>\<open>IndexError\<close> on a list that is too short.
\<close>

definition main_elements ::
  "(string list \<Rightarrow> string list) \<Rightarrow> directory \<Rightarrow> directory \<Rightarrow> directory \<Rightarrow> error + py_value list" where
  "main_elements set_iter controls_dir documents_dir selected_documents_dir =
     (case load_controls controls_dir of
        Inl e \<Rightarrow> Inl e
      | Inr (controls, warnings1) \<Rightarrow>
          if length controls < 1 then Inl IndexError
          else (case load_documents documents_dir of
                  Inl e \<Rightarrow> Inl e
                | Inr (documents, warnings2) \<Rightarrow>
                    if length documents < 1 then Inl IndexError
                    else (case load_selected_controls set_iter selected_documents_dir documents of
                            Inl e \<Rightarrow> Inl e
                          | Inr (selected_controls, warnings3) \<Rightarrow>
                              if length selected_controls < 3 then Inl IndexError
                              else Inr (create_elements controls documents selected_controls))))"

section \<open>Notions used in the statements\<close>

text \<open>What a successful match of the file-name pattern of controls says about the file
  name: two runs of digits around a dot, a run of white space, a name without newline,
  and \<^verbatim>\<open>.md\<close> at the end or before a final newline.\<close>

definition control_filename_shape :: "string \<Rightarrow> string \<Rightarrow> string \<Rightarrow> string \<Rightarrow> string \<Rightarrow> bool" where
  "control_filename_shape f major minor ws n \<longleftrightarrow>
     digit_run major \<and> digit_run minor \<and> ws \<noteq> [] \<and> list_all is_space ws \<and>
     n \<noteq> [] \<and> newline \<notin> set n \<and>
     (f = major @ ''.'' @ minor @ ws @ n @ ''.md'' \<or>
      f = major @ ''.'' @ minor @ ws @ n @ ''.md'' @ [newline])"




text \<open>A digit run that stands immediately after a literal \<^verbatim>\<open>/pages/\<close> in a text and
  ends where the digits end.\<close>

definition page_ref :: "string \<Rightarrow> string \<Rightarrow> bool" where
  "page_ref content d \<longleftrightarrow>
     (\<exists>pre post. content = pre @ ''/pages/'' @ d @ post \<and> digit_run d \<and>
        (post = [] \<or> \<not> is_digit (hd post)))"

text \<open>The two numbers of an id \<open>major.minor\<close> and their pair, the key that the sort
  compares, and the ids whose two numbers a double holds exactly.\<close>

definition id_major :: "string \<Rightarrow> nat" where
  "id_major i = digits_value (takeWhile is_digit i)"

definition id_minor :: "string \<Rightarrow> nat" where
  "id_minor i = digits_value (drop 1 (dropWhile is_digit i))"

definition float_key :: "string \<Rightarrow> enat \<times> enat" where
  "float_key i = (float_of_nat (id_major i), float_of_nat (id_minor i))"

definition id_pair :: "string \<Rightarrow> nat \<times> nat" where
  "id_pair i = (id_major i, id_minor i)"

definition exact_id :: "string \<Rightarrow> bool" where
  "exact_id i \<longleftrightarrow> id_major i < 2 ^ 53 \<and> id_minor i < 2 ^ 53"


definition template_file :: "dir_entry \<Rightarrow> bool" where
  "template_file entry \<longleftrightarrow> lower (fst entry) = ''template.md''"

definition control_of_entry :: "dir_entry \<Rightarrow> Control option" where
  "control_of_entry entry =
     (case (match_control_filename (fst entry), snd entry) of
        (Some (cid, cname), Some content) \<Rightarrow>
          Some \<lparr>control_id = cid, control_name = cname, control_content = content\<rparr>
      | _ \<Rightarrow> None)"


definition selected_of_entry ::
  "(string list \<Rightarrow> string list) \<Rightarrow> string set \<Rightarrow> dir_entry \<Rightarrow> SelectedControl option" where
  "selected_of_entry set_iter available entry =
     (case (match_control_filename (fst entry), snd entry) of
        (Some (cid, cname), Some content) \<Rightarrow>
          (case extract_document_ids_from_content set_iter content available of
             Inr ids \<Rightarrow> Some \<lparr>selected_id = cid, selected_name = cname,
                               relevant_document_ids = ids\<rparr>
           | Inl e \<Rightarrow> None)
      | _ \<Rightarrow> None)"

definition warning_of_entry :: "(string \<Rightarrow> bool) \<Rightarrow> dir_entry \<Rightarrow> warning option" where
  "warning_of_entry name_matches entry =
     (if \<not> name_matches (fst entry) then Some (Pattern_mismatch (fst entry))
      else if snd entry = None then Some (Could_not_read (fst entry))
      else None)"

definition control_pattern :: "string \<Rightarrow> bool" where
  "control_pattern f \<longleftrightarrow> match_control_filename f \<noteq> None"



text \<open>The first line of a content, and a content none of whose lines, stripped, starts
  with the heading marker.\<close>

definition first_line :: "string \<Rightarrow> string" where
  "first_line content = takeWhile (\<lambda>c. c \<noteq> newline) content"


text \<open>An occurrence of the source-URL marker in a content, after the text \<open>pre\<close>: the
  literal \<^verbatim>\<open>**Source URL:**\<close>, white space (none, or any, line breaks included), and
  an \<^verbatim>\<open>http://\<close> or \<^verbatim>\<open>https://\<close> URL that runs up to the next white space or the
  end. \<open>first_source_url\<close> is the URL of the leftmost occurrence.\<close>

definition url_text :: "string \<Rightarrow> bool" where
  "url_text u \<longleftrightarrow>
     (\<exists>body. body \<noteq> [] \<and> list_all (\<lambda>c. \<not> is_space c) body \<and>
        (u = ''http://'' @ body \<or> u = ''https://'' @ body))"



section \<open>Properties of the lookups\<close>

lemma find_first_with_id: "first_with_id key xs i (find (\<lambda>x. key x = i) xs)"
proof (cases "find (\<lambda>x. key x = i) xs")
  case None
  then have "i \<notin> key ` set xs" by (auto simp: find_None_iff)
  with None show ?thesis by (simp add: first_with_id_def)
next
  case (Some x)
  then obtain n where n: "n < length xs" "key (xs ! n) = i" "x = xs ! n"
    "\<forall>m<n. key (xs ! m) \<noteq> i"
    by (auto simp: find_Some_iff)
  have split: "xs = take n xs @ x # drop (Suc n) xs"
    using n(1,3) by (simp add: id_take_nth_drop)
  have "i \<notin> key ` set (take n xs)"
  proof
    assume "i \<in> key ` set (take n xs)"
    then obtain m where "m < length (take n xs)" "key (take n xs ! m) = i"
      by (auto simp: in_set_conv_nth)
    with n(4) show False by simp
  qed
  with split n(2,3) Some show ?thesis
    unfolding first_with_id_def by auto
qed

lemma get_control_by_id_find: "get_control_by_id cs i = find (\<lambda>c. control_id c = i) cs"
  by (induction cs) simp_all

lemma get_document_by_id_find: "get_document_by_id ds i = find (\<lambda>d. document_id d = i) ds"
  by (induction ds) simp_all

lemma get_control_by_id_first: "first_with_id control_id cs i (get_control_by_id cs i)"
  by (simp add: get_control_by_id_find find_first_with_id)

lemma get_document_by_id_first: "first_with_id document_id ds i (get_document_by_id ds i)"
  by (simp add: get_document_by_id_find find_first_with_id)

text \<open>
  Claim C10. For every list of controls (respectively documents) and every id,
  \<open>get_control_by_id\<close> (respectively \<open>get_document_by_id\<close>) returns the first element
  of the list whose id is the requested one, and \<open>None\<close> when there is none. Both are
  total functions of their arguments: no input makes them fail, and the list is an
  argument that is only read.
\<close>

theorem get_by_id_returns_first_match:
  "first_with_id control_id cs i (get_control_by_id cs i) \<and>
   first_with_id document_id ds j (get_document_by_id ds j)"
  by (simp add: get_control_by_id_first get_document_by_id_first)

theorem get_by_id_returns_first_match_witness:
  "get_control_by_id
     [\<lparr>control_id = ''5.1'', control_name = ''A'', control_content = ''x''\<rparr>,
      \<lparr>control_id = ''5.2'', control_name = ''B'', control_content = ''y''\<rparr>,
      \<lparr>control_id = ''5.2'', control_name = ''C'', control_content = ''z''\<rparr>] ''5.2''
     = Some \<lparr>control_id = ''5.2'', control_name = ''B'', control_content = ''y''\<rparr> \<and>
   get_document_by_id
     [\<lparr>document_id = ''7'', document_name = ''T'', document_content = ''x''\<rparr>] ''8'' = None \<and>
   first_with_id control_id
     [\<lparr>control_id = ''5.1'', control_name = ''A'', control_content = ''x''\<rparr>,
      \<lparr>control_id = ''5.2'', control_name = ''B'', control_content = ''y''\<rparr>,
      \<lparr>control_id = ''5.2'', control_name = ''C'', control_content = ''z''\<rparr>] ''5.2''
     (Some \<lparr>control_id = ''5.2'', control_name = ''B'', control_content = ''y''\<rparr>) \<and>
   first_with_id document_id
     [\<lparr>document_id = ''7'', document_name = ''T'', document_content = ''x''\<rparr>] ''8'' None"
  using get_by_id_returns_first_match
    [of "[\<lparr>control_id = ''5.1'', control_name = ''A'', control_content = ''x''\<rparr>,
          \<lparr>control_id = ''5.2'', control_name = ''B'', control_content = ''y''\<rparr>,
          \<lparr>control_id = ''5.2'', control_name = ''C'', control_content = ''z''\<rparr>]" "''5.2''"
        "[\<lparr>document_id = ''7'', document_name = ''T'', document_content = ''x''\<rparr>]" "''8''"]
  by simp

section \<open>Properties of the graph assembly\<close>

lemma foldl_append_one: "foldl (\<lambda>acc x. acc @ [f x]) acc xs = acc @ map f xs"
  by (induction xs arbitrary: acc) simp_all

lemma foldl_append_many: "foldl (\<lambda>acc s. acc @ f s) acc ss = acc @ concat (map f ss)"
  by (induction ss arbitrary: acc) simp_all

lemma create_elements_closed:
  "create_elements cs ds ss =
     map control_element cs @ map document_element ds @
     concat (map (\<lambda>s. map (edge_element s) (relevant_document_ids s)) ss)"
  by (simp add: create_elements_def foldl_append_one foldl_append_many)

lemma length_concat_edges:
  "length (concat (map (\<lambda>s. map (g s) (h s)) ss)) = sum_list (map (\<lambda>s. length (h s)) ss)"
  by (induction ss) simp_all

lemma node_view_control:
  "node_view (control_element c) =
     (Some (Str (control_id c)), Some (Str (control_id c @ '' '' @ control_name c)),
      Some (Str ''Control''))"
  by (simp add: node_view_def data_get_def element_kind_def control_element_def)

lemma node_view_document:
  "node_view (document_element d) =
     (Some (Str (document_id d)), Some (Str (document_name d)), Some (Str ''Document''))"
  by (simp add: node_view_def data_get_def element_kind_def document_element_def)

lemma edge_view_edge:
  "edge_view (edge_element s r) = (Some (Str (selected_id s)), Some (Str r))"
  by (simp add: edge_view_def data_get_def edge_element_def)

lemma placement_control:
  "placement (control_element c) =
     ({''data''}, {''id'', ''label'', ''classes''}, None, Some (Str ''Control''))"
  by (simp add: placement_def data_get_def data_keys_def control_element_def)

lemma placement_document:
  "placement (document_element d) =
     ({''data'', ''classes''}, {''id'', ''label''}, Some (Str ''Document''), None)"
  by (simp add: placement_def data_get_def data_keys_def document_element_def)

text \<open>
  Claim C7. \<open>create_elements\<close> is a total function of the three lists (the model has no
  error branch, as the source has no operation that can raise on well-typed records).
  Its result has \<open>|controls| + |documents| + \<Sum> |relevant_document_ids|\<close> elements:
  first one node per control, with id the control id, label \<open>id name\<close> and kind
  \<open>Control\<close>; then one node per document, with label the document name and kind
  \<open>Document\<close>; then, for each selection record in turn, one edge from its control id to
  each of its relevant document ids.
\<close>

theorem create_elements_nodes_and_edges:
  "length (create_elements cs ds ss)
     = length cs + length ds + sum_list (map (\<lambda>s. length (relevant_document_ids s)) ss) \<and>
   map node_view (take (length cs) (create_elements cs ds ss))
     = map (\<lambda>c. (Some (Str (control_id c)),
                  Some (Str (control_id c @ '' '' @ control_name c)),
                  Some (Str ''Control''))) cs \<and>
   map node_view (take (length ds) (drop (length cs) (create_elements cs ds ss)))
     = map (\<lambda>d. (Some (Str (document_id d)), Some (Str (document_name d)),
                  Some (Str ''Document''))) ds \<and>
   map edge_view (drop (length cs + length ds) (create_elements cs ds ss))
     = concat (map (\<lambda>s. map (\<lambda>r. (Some (Str (selected_id s)), Some (Str r)))
                            (relevant_document_ids s)) ss)"
proof -
  let ?E = "concat (map (\<lambda>s. map (edge_element s) (relevant_document_ids s)) ss)"
  have closed: "create_elements cs ds ss = map control_element cs @ map document_element ds @ ?E"
    by (rule create_elements_closed)
  have len: "length (create_elements cs ds ss)
     = length cs + length ds + sum_list (map (\<lambda>s. length (relevant_document_ids s)) ss)"
    by (simp add: closed length_concat_edges)
  have ctl: "take (length cs) (create_elements cs ds ss) = map control_element cs"
    by (simp add: closed)
  have doc: "take (length ds) (drop (length cs) (create_elements cs ds ss)) = map document_element ds"
    by (simp add: closed)
  have edg: "drop (length cs + length ds) (create_elements cs ds ss) = ?E"
    by (simp add: closed)
  have edges: "map edge_view ?E
     = concat (map (\<lambda>s. map (\<lambda>r. (Some (Str (selected_id s)), Some (Str r)))
                            (relevant_document_ids s)) ss)"
    by (simp add: map_concat comp_def edge_view_edge)
  show ?thesis
    by (simp only: len ctl doc edg edges map_map comp_def node_view_control node_view_document
          simp_thms)
qed

text \<open>
  Claim C9. The kind marker sits in different places in the two node shapes: a control
  node is a dictionary with the single key \<^verbatim>\<open>data\<close>, whose dictionary holds
  \<^verbatim>\<open>classes\<close> (= \<open>Control\<close>) beside \<^verbatim>\<open>id\<close> and \<^verbatim>\<open>label\<close>; a document node has
  \<^verbatim>\<open>classes\<close> (= \<open>Document\<close>) as a top-level key beside \<^verbatim>\<open>data\<close>, and its
  \<^verbatim>\<open>data\<close> dictionary holds only \<^verbatim>\<open>id\<close> and \<^verbatim>\<open>label\<close>.
\<close>

theorem create_elements_kind_placement:
  "map placement (take (length cs) (create_elements cs ds ss))
     = replicate (length cs)
         ({''data''}, {''id'', ''label'', ''classes''}, None, Some (Str ''Control'')) \<and>
   map placement (take (length ds) (drop (length cs) (create_elements cs ds ss)))
     = replicate (length ds)
         ({''data'', ''classes''}, {''id'', ''label''}, Some (Str ''Document''), None)"
proof -
  have ctl: "take (length cs) (create_elements cs ds ss) = map control_element cs"
    by (simp add: create_elements_closed)
  have doc: "take (length ds) (drop (length cs) (create_elements cs ds ss)) = map document_element ds"
    by (simp add: create_elements_closed)
  show ?thesis
    by (simp only: ctl doc map_map comp_def placement_control placement_document
          map_replicate_const simp_thms)
qed

section \<open>Properties of the file-name pattern\<close>


lemma is_digit_not_dot: "is_digit c \<Longrightarrow> c \<noteq> CHR ''.''"
  by (auto simp: is_digit_def)


lemma is_space_blank: "is_space CHR '' ''"
  by (simp add: is_space_def)


lemma lazy_name_shape:
  "lazy_name acc rest = Some n \<Longrightarrow>
     \<exists>m tail. n = acc @ m \<and> rest = m @ ''.md'' @ tail \<and> (tail = [] \<or> tail = [newline]) \<and>
       newline \<notin> set m"
proof (induction rest arbitrary: acc)
  case Nil
  then show ?case by simp
next
  case (Cons c cs)
  show ?case
  proof (cases "c # cs = ''.md'' \<or> c # cs = ''.md'' @ [newline]")
    case True
    with Cons.prems have "n = acc" by simp
    with True show ?thesis by auto
  next
    case False
    with Cons.prems have nl: "c \<noteq> newline" and rec: "lazy_name (acc @ [c]) cs = Some n"
      by (auto split: if_splits)
    from Cons.IH[OF rec] obtain m tail where
      m: "n = (acc @ [c]) @ m" "cs = m @ ''.md'' @ tail" "tail = [] \<or> tail = [newline]"
        "newline \<notin> set m"
      by blast
    have "n = acc @ (c # m) \<and> c # cs = (c # m) @ ''.md'' @ tail \<and>
      (tail = [] \<or> tail = [newline]) \<and> newline \<notin> set (c # m)"
      using m nl by auto
    then show ?thesis by blast
  qed
qed

lemma name_group_shape:
  "name_group s = Some n \<Longrightarrow>
     n \<noteq> [] \<and> newline \<notin> set n \<and> (s = n @ ''.md'' \<or> s = n @ ''.md'' @ [newline])"
proof (cases s)
  case Nil
  assume "name_group s = Some n"
  with Nil show ?thesis by simp
next
  case (Cons c cs)
  assume "name_group s = Some n"
  with Cons have nl: "c \<noteq> newline" and l: "lazy_name [c] cs = Some n"
    by (auto split: if_splits)
  from lazy_name_shape[OF l] obtain m tail where
    m: "n = [c] @ m" "cs = m @ ''.md'' @ tail" "tail = [] \<or> tail = [newline]"
      "newline \<notin> set m"
    by blast
  with nl Cons show ?thesis by auto
qed

lemma give_back_shape:
  "give_back k s = Some n \<Longrightarrow> \<exists>j. 0 < j \<and> j \<le> k \<and> name_group (drop j s) = Some n"
proof (induction k)
  case 0
  then show ?case by simp
next
  case (Suc k)
  show ?case
  proof (cases "name_group (drop (Suc k) s)")
    case None
    with Suc.prems have "give_back k s = Some n" by simp
    from Suc.IH[OF this] show ?thesis by (auto intro: le_SucI)
  next
    case (Some a)
    with Suc.prems have "a = n" by simp
    with Some show ?thesis by blast
  qed
qed

lemma match_control_filename_shape:
  assumes "match_control_filename f = Some (i, n)"
  shows "\<exists>major minor ws. i = major @ ''.'' @ minor \<and> control_filename_shape f major minor ws n"
proof -
  let ?major = "takeWhile is_digit f"
  let ?r1 = "dropWhile is_digit f"
  from assms have major: "?major \<noteq> []"
    by (auto simp: match_control_filename_def Let_def split: if_splits)
  from assms major obtain r2 where r1: "?r1 = CHR ''.'' # r2"
    by (auto simp: match_control_filename_def Let_def split: if_splits list.splits)
  let ?minor = "takeWhile is_digit r2"
  let ?r3 = "dropWhile is_digit r2"
  from assms major r1 have minor: "?minor \<noteq> []"
    by (auto simp: match_control_filename_def Let_def split: if_splits)
  from assms major r1 minor have
    g: "give_back (length (takeWhile is_space ?r3)) ?r3 = Some n" and i: "i = ?major @ ''.'' @ ?minor"
    by (auto simp: match_control_filename_def Let_def split: if_splits option.splits)
  from give_back_shape[OF g] obtain j where
    j: "0 < j" "j \<le> length (takeWhile is_space ?r3)" "name_group (drop j ?r3) = Some n"
    by blast
  let ?ws = "take j ?r3"
  from name_group_shape[OF j(3)] have
    n: "n \<noteq> []" "newline \<notin> set n"
      "drop j ?r3 = n @ ''.md'' \<or> drop j ?r3 = n @ ''.md'' @ [newline]"
    by auto
  have f: "f = ?major @ ''.'' @ ?minor @ ?ws @ drop j ?r3"
  proof -
    have "f = ?major @ ?r1" by simp
    also have "?r1 = ''.'' @ r2" using r1 by simp
    also have "r2 = ?minor @ ?r3" by simp
    also have "?r3 = ?ws @ drop j ?r3" by simp
    finally show ?thesis by simp
  qed
  have wsp: "?ws = take j (takeWhile is_space ?r3)"
    using j(2) by (metis append_eq_conv_conj takeWhile_dropWhile_id take_append append_take_drop_id
        diff_is_0_eq' take_0 append_Nil2)
  have ws_space: "list_all is_space ?ws"
    unfolding wsp list_all_iff by (auto dest: in_set_takeD set_takeWhileD)
  have lenws: "length ?ws = j" using j(2) length_takeWhile_le[of is_space ?r3] by simp
  have ws_ne: "?ws \<noteq> []"
  proof
    assume "?ws = []"
    then have "length ?ws = 0" by (simp only: list.size)
    with lenws j(1) show False by simp
  qed
  have dm: "digit_run ?major" "digit_run ?minor"
    using major minor by (auto simp: digit_run_def list_all_iff dest: set_takeWhileD)
  have fd: "f = ?major @ ''.'' @ ?minor @ ?ws @ n @ ''.md'' \<or>
            f = ?major @ ''.'' @ ?minor @ ?ws @ n @ ''.md'' @ [newline]"
    using n(3)
  proof
    assume a: "drop j ?r3 = n @ ''.md''"
    from f[unfolded a] show ?thesis by (rule disjI1)
  next
    assume a: "drop j ?r3 = n @ ''.md'' @ [newline]"
    from f[unfolded a] show ?thesis by (rule disjI2)
  qed
  have "control_filename_shape f ?major ?minor ?ws n"
    unfolding control_filename_shape_def
    using dm ws_ne ws_space n(1,2) fd by (intro conjI)
  with i show ?thesis by blast
qed

lemma takeWhile_all: "list_all P xs \<Longrightarrow> takeWhile P (xs @ ys) = xs @ takeWhile P ys"
  by (induction xs) simp_all

lemma dropWhile_none: "list_all (\<lambda>x. \<not> P x) xs \<Longrightarrow> dropWhile P (xs @ ys) = xs @ ys \<or> xs = []"
  by (cases xs) simp_all





section \<open>Properties of sorting and of the sort keys\<close>

lemma decorate_total:
  "\<forall>x\<in>set xs. key x = Inr (k x) \<Longrightarrow> decorate key xs = Inr (map (\<lambda>x. (k x, x)) xs)"
  by (induction xs) simp_all

lemma insort_key_decorated:
  "insort_key fst (k x, x) (map (\<lambda>x. (k x, x)) ys) = map (\<lambda>x. (k x, x)) (insort_key k x ys)"
  by (induction ys) simp_all

lemma sort_key_decorated:
  "sort_key fst (map (\<lambda>x. (k x, x)) xs) = map (\<lambda>x. (k x, x)) (sort_key k xs)"
  by (induction xs) (simp_all add: insort_key_decorated)

lemma list_sort_total:
  assumes "\<forall>x\<in>set xs. key x = Inr (k x)"
  shows "list_sort key xs = Inr (sort_key k xs)"
  by (simp add: list_sort_def decorate_total[OF assms] sort_key_decorated comp_def)

lemma split_on_no_sep: "sep \<notin> set s \<Longrightarrow> split_on sep s = [s]"
  by (induction s) auto

lemma split_on_append:
  "sep \<notin> set a \<Longrightarrow> split_on sep (a @ sep # b) = a # split_on sep b"
  by (induction a) auto


lemma dropWhile_all: "list_all P xs \<Longrightarrow> dropWhile P (xs @ ys) = dropWhile P ys"
  by (induction xs) simp_all

lemma id_sort_key_digits:
  assumes "digit_run major" "digit_run minor"
  shows "id_sort_key (major @ ''.'' @ minor) = Inr (float_key (major @ ''.'' @ minor))"
proof -
  have a: "list_all is_digit major" "list_all is_digit minor"
    using assms by (auto simp: digit_run_def)
  have nd: "CHR ''.'' \<notin> set major" "CHR ''.'' \<notin> set minor"
    using a is_digit_not_dot by (auto simp: list_all_iff)
  have sp: "split_on CHR ''.'' (major @ CHR ''.'' # minor) = [major, minor]"
    using split_on_append[OF nd(1), of minor] split_on_no_sep[OF nd(2)] by simp
  have nodot: "\<not> is_digit CHR ''.''" by (simp add: is_digit_def)
  have tw: "takeWhile is_digit (major @ CHR ''.'' # minor) = major"
    using takeWhile_all[OF a(1), of "''.'' @ minor"] nodot by simp
  have dw: "dropWhile is_digit (major @ CHR ''.'' # minor) = CHR ''.'' # minor"
    using dropWhile_all[OF a(1), of "''.'' @ minor"] nodot by simp
  show ?thesis
    using assms by (simp add: id_sort_key_def sp py_float_def float_key_def id_major_def
        id_minor_def tw dw)
qed

lemma float_of_nat_exact: "n < 2 ^ 53 \<Longrightarrow> float_of_nat n = enat n"
  by (simp add: float_of_nat_def)

lemma bit_length_54:
  "bit_length 9007199254740993 = 54" "bit_length 9007199254740992 = 54"
  by (simp_all add: bit_length.simps)

lemma float_of_nat_rounds:
  "float_of_nat 9007199254740993 = enat 9007199254740992"
  "float_of_nat 9007199254740992 = enat 9007199254740992"
  by (simp_all add: float_of_nat_def bit_length_54 Let_def)

section \<open>Properties of the cross-reference extraction\<close>

lemma dropWhile_hd: "dropWhile P xs = [] \<or> \<not> P (hd (dropWhile P xs))"
  by (metis hd_dropWhile)

lemma takeWhile_maximal:
  "list_all P d \<Longrightarrow> post = [] \<or> \<not> P (hd post) \<Longrightarrow> takeWhile P (d @ post) = d"
  by (cases post) (auto simp: takeWhile_all list_all_iff)

lemma dropWhile_maximal:
  "list_all P d \<Longrightarrow> post = [] \<or> \<not> P (hd post) \<Longrightarrow> dropWhile P (d @ post) = post"
  by (cases post) (auto simp: dropWhile_all list_all_iff)

lemma match_pages_Some:
  "match_pages s = Some (ds, rest) \<longleftrightarrow>
     s = ''/pages/'' @ ds @ rest \<and> digit_run ds \<and> (rest = [] \<or> \<not> is_digit (hd rest))"
proof
  assume m: "match_pages s = Some (ds, rest)"
  then have p: "prefix ''/pages/'' s" and ds: "ds = takeWhile is_digit (drop 7 s)" "ds \<noteq> []"
    and r: "rest = dropWhile is_digit (drop 7 s)"
    by (auto simp: match_pages_def Let_def split: if_splits)
  from p obtain t where t: "s = ''/pages/'' @ t" by (auto simp: prefix_def)
  then have "drop 7 s = t" by simp
  with ds r have "t = ds @ rest" by simp
  with t have "s = ''/pages/'' @ ds @ rest" by simp
  moreover have "digit_run ds"
    using ds by (auto simp: digit_run_def list_all_iff dest: set_takeWhileD)
  moreover have "rest = [] \<or> \<not> is_digit (hd rest)"
    unfolding r by (rule dropWhile_hd)
  ultimately show "s = ''/pages/'' @ ds @ rest \<and> digit_run ds \<and> (rest = [] \<or> \<not> is_digit (hd rest))"
    by simp
next
  assume a: "s = ''/pages/'' @ ds @ rest \<and> digit_run ds \<and> (rest = [] \<or> \<not> is_digit (hd rest))"
  then have d: "list_all is_digit ds" "ds \<noteq> []" and e: "rest = [] \<or> \<not> is_digit (hd rest)"
    by (auto simp: digit_run_def)
  have "drop 7 s = ds @ rest" using a by simp
  moreover have "prefix ''/pages/'' s" using a by (simp add: prefix_def)
  ultimately show "match_pages s = Some (ds, rest)"
    using d takeWhile_maximal[OF d(1) e] dropWhile_maximal[OF d(1) e]
    by (simp add: match_pages_def Let_def)
qed



lemma findall_pages_sound: "d \<in> set (findall_pages s) \<Longrightarrow> page_ref s d"
proof (induction s rule: findall_pages.induct)
  case 1
  then show ?case by simp
next
  case (2 c cs)
  show ?case
  proof (cases "match_pages (c # cs)")
    case None
    with 2 have "page_ref cs d" by simp
    then obtain pre post where "cs = pre @ ''/pages/'' @ d @ post" "digit_run d"
      "post = [] \<or> \<not> is_digit (hd post)"
      by (auto simp: page_ref_def)
    then have "c # cs = (c # pre) @ ''/pages/'' @ d @ post \<and> digit_run d \<and>
      (post = [] \<or> \<not> is_digit (hd post))" by simp
    then show ?thesis unfolding page_ref_def by blast
  next
    case (Some a)
    obtain ds rest where a: "a = (ds, rest)" by (cases a)
    from Some a have m: "match_pages (c # cs) = Some (ds, rest)" by simp
    then have sh: "c # cs = ''/pages/'' @ ds @ rest" "digit_run ds"
      "rest = [] \<or> \<not> is_digit (hd rest)"
      by (simp_all add: match_pages_Some)
    from 2(3) m have "d = ds \<or> d \<in> set (findall_pages rest)" by simp
    then show ?thesis
    proof
      assume "d = ds"
      with sh have "c # cs = [] @ ''/pages/'' @ d @ rest \<and> digit_run d \<and>
        (rest = [] \<or> \<not> is_digit (hd rest))" by simp
      then show ?thesis unfolding page_ref_def by blast
    next
      assume "d \<in> set (findall_pages rest)"
      with 2(2)[OF Some a[symmetric]] have "page_ref rest d" by simp
      then obtain pre post where "rest = pre @ ''/pages/'' @ d @ post" "digit_run d"
        "post = [] \<or> \<not> is_digit (hd post)"
        by (auto simp: page_ref_def)
      with sh(1) have "c # cs = (''/pages/'' @ ds @ pre) @ ''/pages/'' @ d @ post \<and> digit_run d \<and>
        (post = [] \<or> \<not> is_digit (hd post))" by simp
      then show ?thesis unfolding page_ref_def by blast
    qed
  qed
qed



lemma findall_pages_digit_run: "d \<in> set (findall_pages s) \<Longrightarrow> digit_run d"
  by (auto dest: findall_pages_sound simp: page_ref_def)


lemma extract_document_ids_total:
  assumes "iterates_set it"
  shows "extract_document_ids_from_content it content avail =
           Inr (sort_key digits_value (filter (\<lambda>d. d \<in> avail) (it (findall_pages content))))"
proof -
  from assms have st: "set (it (findall_pages content)) = set (findall_pages content)"
    by (simp add: iterates_set_def)
  have "\<forall>x\<in>set (filter (\<lambda>d. d \<in> avail) (it (findall_pages content))).
          py_int x = Inr (digits_value x)"
    using st findall_pages_digit_run by (auto simp: py_int_def)
  from list_sort_total[OF this] show ?thesis
    by (simp add: extract_document_ids_from_content_def Let_def)
qed



section \<open>Properties of the load operations\<close>

text \<open>The definitions that evaluate a load operation on a given directory.\<close>

lemmas eval_controls =
  load_controls_def glob_md_def suffix_def load_controls_step_def
  match_control_filename_def is_digit_def is_space_def newline_def
  list_sort_def id_sort_key_def py_float_def digit_run_def digits_value_def digit_value_def
  float_of_nat_exact

lemmas eval_selected =
  load_selected_controls_def glob_md_def suffix_def load_selected_controls_step_def
  match_control_filename_def is_digit_def is_space_def newline_def lower_def lower_char_def
  list_sort_def id_sort_key_def py_float_def digit_run_def digits_value_def digit_value_def
  float_of_nat_exact extract_document_ids_from_content_def match_pages_def py_int_def Let_def

lemmas eval_documents =
  load_documents_def glob_md_def suffix_def load_documents_step_def
  match_document_filename_def is_digit_def is_space_def newline_def
  list_sort_def py_int_def digit_run_def digits_value_def digit_value_def
  derive_document_name_def strip_def lstrip_chars_def

lemma load_controls_loop:
  "foldl load_controls_step (cs, ws) es =
     (cs @ List.map_filter control_of_entry es,
      ws @ List.map_filter (warning_of_entry control_pattern) es)"
proof (induction es arbitrary: cs ws)
  case Nil
  show ?case by simp
next
  case (Cons e es)
  obtain f fc where e: "e = (f, fc)" by (cases e)
  show ?case
    unfolding foldl_Cons e
    by (cases "match_control_filename f"; cases fc)
       (auto simp: load_controls_step_def control_of_entry_def warning_of_entry_def
          control_pattern_def Cons.IH)
qed


lemma set_map_filter: "set (List.map_filter f xs) = {y. \<exists>x\<in>set xs. f x = Some y}"
  by (induction xs) (auto split: option.splits)





lemma load_selected_controls_loop:
  assumes "iterates_set it"
  shows "foldl (load_selected_controls_step it avail) (cs, ws) es =
     (cs @ List.map_filter (selected_of_entry it avail) (filter (\<lambda>e. \<not> template_file e) es),
      ws @ List.map_filter (warning_of_entry control_pattern) (filter (\<lambda>e. \<not> template_file e) es))"
proof (induction es arbitrary: cs ws)
  case Nil
  show ?case by simp
next
  case (Cons e es)
  obtain f fc where e: "e = (f, fc)" by (cases e)
  show ?case
    unfolding foldl_Cons e
    by (cases "match_control_filename f"; cases fc)
       (auto simp: load_selected_controls_step_def selected_of_entry_def warning_of_entry_def
          control_pattern_def template_file_def Cons.IH extract_document_ids_total[OF assms])
qed

lemma control_of_entry_key:
  assumes "control_of_entry e = Some c"
  shows "id_sort_key (control_id c) = Inr (float_key (control_id c))"
proof -
  from assms obtain i n where m: "match_control_filename (fst e) = Some (i, n)"
    and c: "control_id c = i"
    by (auto simp: control_of_entry_def split: option.splits)
  from match_control_filename_shape[OF m] obtain major minor ws where
    "i = major @ ''.'' @ minor" "control_filename_shape (fst e) major minor ws n" by blast
  then show ?thesis
    unfolding c by (simp only: control_filename_shape_def id_sort_key_digits)
qed

lemma selected_of_entry_key:
  assumes "selected_of_entry it avail e = Some c"
  shows "id_sort_key (selected_id c) = Inr (float_key (selected_id c))"
proof -
  from assms obtain i n where m: "match_control_filename (fst e) = Some (i, n)"
    and c: "selected_id c = i"
    by (auto simp: selected_of_entry_def split: option.splits sum.splits)
  from match_control_filename_shape[OF m] obtain major minor ws where
    "i = major @ ''.'' @ minor" "control_filename_shape (fst e) major minor ws n" by blast
  then show ?thesis
    unfolding c by (simp only: control_filename_shape_def id_sort_key_digits)
qed


lemma load_controls_closed:
  "load_controls (Some es) =
     Inr (sort_key (\<lambda>c. float_key (control_id c)) (List.map_filter control_of_entry (glob_md es)),
          List.map_filter (warning_of_entry control_pattern) (glob_md es))"
proof -
  have "\<forall>c\<in>set (List.map_filter control_of_entry (glob_md es)).
          id_sort_key (control_id c) = Inr (float_key (control_id c))"
    by (auto simp: set_map_filter control_of_entry_key)
  from list_sort_total[OF this] show ?thesis
    by (simp add: load_controls_def load_controls_loop)
qed


lemma load_selected_controls_closed:
  assumes "iterates_set it"
  shows "load_selected_controls it (Some es) docs =
     Inr (sort_key (\<lambda>c. float_key (selected_id c))
            (List.map_filter (selected_of_entry it (document_id ` set docs))
               (filter (\<lambda>e. \<not> template_file e) (glob_md es))),
          List.map_filter (warning_of_entry control_pattern)
            (filter (\<lambda>e. \<not> template_file e) (glob_md es)))"
proof -
  have "\<forall>c\<in>set (List.map_filter (selected_of_entry it (document_id ` set docs))
               (filter (\<lambda>e. \<not> template_file e) (glob_md es))).
          id_sort_key (selected_id c) = Inr (float_key (selected_id c))"
    by (auto simp: set_map_filter selected_of_entry_key)
  from list_sort_total[OF this] show ?thesis
    by (simp add: load_selected_controls_def load_selected_controls_loop[OF assms] Let_def)
qed







lemma float_key_exact: "exact_id i \<Longrightarrow> float_key i = (enat (id_major i), enat (id_minor i))"
  by (simp add: exact_id_def float_key_def float_of_nat_exact)

lemma sorted_float_key_exact:
  assumes "sorted (map (\<lambda>x. float_key (f x)) xs)" and "\<forall>x\<in>set xs. exact_id (f x)"
  shows "sorted (map (\<lambda>x. id_pair (f x)) xs)"
proof -
  from assms(1) have "sorted_wrt (\<lambda>x y. float_key (f x) \<le> float_key (f y)) xs"
    by (simp add: sorted_map)
  then have "sorted_wrt (\<lambda>x y. id_pair (f x) \<le> id_pair (f y)) xs"
  proof (rule sorted_wrt_mono_rel[rotated])
    fix x y
    assume "x \<in> set xs" "y \<in> set xs" and le: "float_key (f x) \<le> float_key (f y)"
    with assms(2) have "exact_id (f x)" "exact_id (f y)" by auto
    with le show "id_pair (f x) \<le> id_pair (f y)"
      by (simp add: float_key_exact id_pair_def)
  qed
  then show ?thesis by (simp add: sorted_map)
qed

text \<open>
  Claim C2, as the code has it. The sort key of a control or selection record is the
  pair \<^verbatim>\<open>(float(major), float(minor))\<close>. Every load of controls and of selection
  reports returns its records sorted ascending by that pair of doubles; when the two
  numbers of every id are below \<open>2^53\<close>, where a double holds an integer exactly, this is
  the ascending order of the pairs of integers \<open>(major, minor)\<close>, each part compared as
  its own integer.
\<close>

theorem loaded_controls_sorted:
  assumes "iterates_set it"
  shows "(\<exists>cs w. load_controls (Some es) = Inr (cs, w) \<and>
            sorted (map (\<lambda>c. float_key (control_id c)) cs) \<and>
            ((\<forall>c\<in>set cs. exact_id (control_id c)) \<longrightarrow>
               sorted (map (\<lambda>c. id_pair (control_id c)) cs))) \<and>
         (\<exists>ss w. load_selected_controls it (Some es') docs = Inr (ss, w) \<and>
            sorted (map (\<lambda>s. float_key (selected_id s)) ss) \<and>
            ((\<forall>s\<in>set ss. exact_id (selected_id s)) \<longrightarrow>
               sorted (map (\<lambda>s. id_pair (selected_id s)) ss)))"
proof -
  let ?cs = "sort_key (\<lambda>c. float_key (control_id c))
               (List.map_filter control_of_entry (glob_md es))"
  let ?ss = "sort_key (\<lambda>c. float_key (selected_id c))
               (List.map_filter (selected_of_entry it (document_id ` set docs))
                  (filter (\<lambda>e. \<not> template_file e) (glob_md es')))"
  have c: "sorted (map (\<lambda>c. float_key (control_id c)) ?cs)" by (rule sorted_sort_key)
  have s: "sorted (map (\<lambda>c. float_key (selected_id c)) ?ss)" by (rule sorted_sort_key)
  have c': "(\<forall>c\<in>set ?cs. exact_id (control_id c)) \<longrightarrow>
               sorted (map (\<lambda>c. id_pair (control_id c)) ?cs)"
    using sorted_float_key_exact[OF c] by blast
  have s': "(\<forall>c\<in>set ?ss. exact_id (selected_id c)) \<longrightarrow>
               sorted (map (\<lambda>c. id_pair (selected_id c)) ?ss)"
    using sorted_float_key_exact[OF s] by blast
  from load_controls_closed[of es] c c'
  have 1: "\<exists>cs w. load_controls (Some es) = Inr (cs, w) \<and>
            sorted (map (\<lambda>c. float_key (control_id c)) cs) \<and>
            ((\<forall>c\<in>set cs. exact_id (control_id c)) \<longrightarrow>
               sorted (map (\<lambda>c. id_pair (control_id c)) cs))"
    by blast
  from load_selected_controls_closed[OF assms, of es' docs] s s'
  have 2: "\<exists>ss w. load_selected_controls it (Some es') docs = Inr (ss, w) \<and>
            sorted (map (\<lambda>s. float_key (selected_id s)) ss) \<and>
            ((\<forall>s\<in>set ss. exact_id (selected_id s)) \<longrightarrow>
               sorted (map (\<lambda>s. id_pair (selected_id s)) ss))"
    by blast
  from 1 2 show ?thesis by blast
qed

text \<open>The ids \<open>5.1\<close>, \<open>5.2\<close>, \<open>5.10\<close>, loaded in each of their six orders, come out
  as \<open>5.1, 5.2, 5.10\<close>.\<close>

lemma load_controls_example_orders:
  "list_all (\<lambda>es. map control_id (fst (projr (load_controls (Some es)))) = [''5.1'', ''5.2'', ''5.10''])
     [[(''5.1 A.md'', Some ''a''), (''5.2 B.md'', Some ''b''), (''5.10 C.md'', Some ''c'')],
      [(''5.1 A.md'', Some ''a''), (''5.10 C.md'', Some ''c''), (''5.2 B.md'', Some ''b'')],
      [(''5.2 B.md'', Some ''b''), (''5.1 A.md'', Some ''a''), (''5.10 C.md'', Some ''c'')],
      [(''5.2 B.md'', Some ''b''), (''5.10 C.md'', Some ''c''), (''5.1 A.md'', Some ''a'')],
      [(''5.10 C.md'', Some ''c''), (''5.1 A.md'', Some ''a''), (''5.2 B.md'', Some ''b'')],
      [(''5.10 C.md'', Some ''c''), (''5.2 B.md'', Some ''b''), (''5.1 A.md'', Some ''a'')]]"
  by (simp add: eval_controls)

lemma load_selected_controls_example_orders:
  "list_all (\<lambda>es. map selected_id (fst (projr (load_selected_controls remdups (Some es) [])))
                 = [''5.1'', ''5.2'', ''5.10''])
     [[(''5.1 A.md'', Some ''a''), (''5.2 B.md'', Some ''b''), (''5.10 C.md'', Some ''c'')],
      [(''5.1 A.md'', Some ''a''), (''5.10 C.md'', Some ''c''), (''5.2 B.md'', Some ''b'')],
      [(''5.2 B.md'', Some ''b''), (''5.1 A.md'', Some ''a''), (''5.10 C.md'', Some ''c'')],
      [(''5.2 B.md'', Some ''b''), (''5.10 C.md'', Some ''c''), (''5.1 A.md'', Some ''a'')],
      [(''5.10 C.md'', Some ''c''), (''5.1 A.md'', Some ''a''), (''5.2 B.md'', Some ''b'')],
      [(''5.10 C.md'', Some ''c''), (''5.2 B.md'', Some ''b''), (''5.1 A.md'', Some ''a'')]]"
  by (simp add: eval_selected)

theorem loaded_controls_sorted_witness:
  "iterates_set remdups \<and>
   load_controls (Some [(''5.10 C.md'', Some ''c''), (''5.2 B.md'', Some ''b''),
                        (''5.1 A.md'', Some ''a'')])
     = Inr ([\<lparr>control_id = ''5.1'', control_name = ''A'', control_content = ''a''\<rparr>,
             \<lparr>control_id = ''5.2'', control_name = ''B'', control_content = ''b''\<rparr>,
             \<lparr>control_id = ''5.10'', control_name = ''C'', control_content = ''c''\<rparr>], []) \<and>
   exact_id ''5.1'' \<and> exact_id ''5.2'' \<and> exact_id ''5.10'' \<and>
   sorted [id_pair ''5.1'', id_pair ''5.2'', id_pair ''5.10''] \<and>
   id_pair ''5.2'' = (5, 2) \<and> id_pair ''5.10'' = (5, 10)"
proof -
  have h: "iterates_set remdups" by (simp add: iterates_set_def)
  have e: "load_controls (Some [(''5.10 C.md'', Some ''c''), (''5.2 B.md'', Some ''b''),
                        (''5.1 A.md'', Some ''a'')])
     = Inr ([\<lparr>control_id = ''5.1'', control_name = ''A'', control_content = ''a''\<rparr>,
             \<lparr>control_id = ''5.2'', control_name = ''B'', control_content = ''b''\<rparr>,
             \<lparr>control_id = ''5.10'', control_name = ''C'', control_content = ''c''\<rparr>], [])"
    by (simp add: eval_controls)
  have x: "exact_id ''5.1''" "exact_id ''5.2''" "exact_id ''5.10''"
    by (simp_all add: exact_id_def id_major_def id_minor_def is_digit_def digits_value_def
          digit_value_def)
  have p: "id_pair ''5.2'' = (5, 2)" "id_pair ''5.10'' = (5, 10)"
    by (simp_all add: id_pair_def id_major_def id_minor_def is_digit_def digits_value_def
          digit_value_def)
  from loaded_controls_sorted[OF h, of "[(''5.10 C.md'', Some ''c''), (''5.2 B.md'', Some ''b''),
                        (''5.1 A.md'', Some ''a'')]" "[]" "[]"] e x
  have "sorted [id_pair ''5.1'', id_pair ''5.2'', id_pair ''5.10'']" by simp
  with h e x p show ?thesis by simp
qed

text \<open>
  Claim C2 as stated fails beyond \<open>2^53\<close>: \<open>9007199254740993 = 2^53 + 1\<close> is not a
  double and \<^verbatim>\<open>float\<close> rounds it to \<open>2^53\<close>, so the two keys below are equal, the stable
  sort keeps the directory order, and the result is not ascending in the integer pairs.
\<close>

theorem loaded_controls_float_counterexample:
  "load_controls (Some [(''5.9007199254740993 A.md'', Some ''a''),
                        (''5.9007199254740992 B.md'', Some ''b'')])
     = Inr ([\<lparr>control_id = ''5.9007199254740993'', control_name = ''A'', control_content = ''a''\<rparr>,
             \<lparr>control_id = ''5.9007199254740992'', control_name = ''B'', control_content = ''b''\<rparr>],
            []) \<and>
   id_pair ''5.9007199254740993'' = (5, 9007199254740993) \<and>
   id_pair ''5.9007199254740992'' = (5, 9007199254740992) \<and>
   \<not> sorted [id_pair ''5.9007199254740993'', id_pair ''5.9007199254740992'']"
proof -
  have p: "id_pair ''5.9007199254740993'' = (5, 9007199254740993)"
    "id_pair ''5.9007199254740992'' = (5, 9007199254740992)"
    by (simp_all add: id_pair_def id_major_def id_minor_def is_digit_def digits_value_def
          digit_value_def)
  have e: "load_controls (Some [(''5.9007199254740993 A.md'', Some ''a''),
                        (''5.9007199254740992 B.md'', Some ''b'')])
     = Inr ([\<lparr>control_id = ''5.9007199254740993'', control_name = ''A'', control_content = ''a''\<rparr>,
             \<lparr>control_id = ''5.9007199254740992'', control_name = ''B'', control_content = ''b''\<rparr>],
            [])"
    by (simp add: eval_controls float_of_nat_rounds)
  from p e show ?thesis by simp
qed







section \<open>Properties of the presenter\<close>

text \<open>The order of iteration of the intermediate set does not show in the result of the
  extraction as long as no two known identifiers have the same integer value.\<close>

lemma sort_key_inj_unique:
  assumes "distinct xs" "distinct ys" "set xs = set ys" "inj_on k (set xs)"
  shows "sort_key k xs = sort_key k ys"
proof -
  have d1: "distinct (map k (sort_key k xs))"
    using assms(1,4) by (simp add: distinct_map)
  have d2: "distinct (map k (sort_key k ys))"
    using assms(2,3,4) by (simp add: distinct_map)
  have "map k (sort_key k xs) = map k (sort_key k ys)"
    by (rule sorted_distinct_set_unique) (simp_all add: sorted_sort_key d1 d2 assms(3))
  moreover have "inj_on k (set (sort_key k xs) \<union> set (sort_key k ys))"
    using assms(3,4) by simp
  ultimately show ?thesis by (simp add: inj_on_map_eq_map)
qed

lemma extract_document_ids_order_free:
  assumes "iterates_set it1" "iterates_set it2" "inj_on digits_value avail"
  shows "extract_document_ids_from_content it1 content avail =
         extract_document_ids_from_content it2 content avail"
proof -
  let ?m = "findall_pages content"
  have "sort_key digits_value (filter (\<lambda>d. d \<in> avail) (it1 ?m)) =
        sort_key digits_value (filter (\<lambda>d. d \<in> avail) (it2 ?m))"
  proof (rule sort_key_inj_unique)
    show "distinct (filter (\<lambda>d. d \<in> avail) (it1 ?m))"
      using assms(1) by (simp add: iterates_set_def)
    show "distinct (filter (\<lambda>d. d \<in> avail) (it2 ?m))"
      using assms(2) by (simp add: iterates_set_def)
    show "set (filter (\<lambda>d. d \<in> avail) (it1 ?m)) = set (filter (\<lambda>d. d \<in> avail) (it2 ?m))"
      using assms(1,2) by (simp add: iterates_set_def)
    show "inj_on digits_value (set (filter (\<lambda>d. d \<in> avail) (it1 ?m)))"
      using assms(3) by (auto intro: inj_on_subset)
  qed
  then show ?thesis
    by (simp add: extract_document_ids_total[OF assms(1)] extract_document_ids_total[OF assms(2)])
qed

lemma tie_documents: "load_documents (Some [(''7.md'', Some ''x''), (''07.md'', Some ''y'')])
       = Inr ([\<lparr>document_id = ''7'', document_name = ''x'', document_content = ''x''\<rparr>,
               \<lparr>document_id = ''07'', document_name = ''y'', document_content = ''y''\<rparr>], [])"
  by (simp add: eval_documents)

lemma tie_controls: "load_controls (Some [(''5.1 A.md'', Some ''a'')])
       = Inr ([\<lparr>control_id = ''5.1'', control_name = ''A'', control_content = ''a''\<rparr>], [])"
  by (simp add: eval_controls)

lemma tie_selected_forward: "load_selected_controls remdups
         (Some [(''5.1 A.md'', Some ''/pages/7 /pages/07''), (''5.2 B.md'', Some ''''),
                (''5.3 C.md'', Some '''')])
         [\<lparr>document_id = ''7'', document_name = ''x'', document_content = ''x''\<rparr>,
          \<lparr>document_id = ''07'', document_name = ''y'', document_content = ''y''\<rparr>]
       = Inr ([\<lparr>selected_id = ''5.1'', selected_name = ''A'',
                 relevant_document_ids = [''7'', ''07'']\<rparr>,
               \<lparr>selected_id = ''5.2'', selected_name = ''B'', relevant_document_ids = []\<rparr>,
               \<lparr>selected_id = ''5.3'', selected_name = ''C'', relevant_document_ids = []\<rparr>], [])"
  by (simp add: eval_selected)

lemma tie_selected_backward: "load_selected_controls (\<lambda>xs. rev (remdups xs))
         (Some [(''5.1 A.md'', Some ''/pages/7 /pages/07''), (''5.2 B.md'', Some ''''),
                (''5.3 C.md'', Some '''')])
         [\<lparr>document_id = ''7'', document_name = ''x'', document_content = ''x''\<rparr>,
          \<lparr>document_id = ''07'', document_name = ''y'', document_content = ''y''\<rparr>]
       = Inr ([\<lparr>selected_id = ''5.1'', selected_name = ''A'',
                 relevant_document_ids = [''07'', ''7'']\<rparr>,
               \<lparr>selected_id = ''5.2'', selected_name = ''B'', relevant_document_ids = []\<rparr>,
               \<lparr>selected_id = ''5.3'', selected_name = ''C'', relevant_document_ids = []\<rparr>], [])"
  by (simp add: eval_selected)

text \<open>
  Claim C6 at a failing input. The sort of the extraction compares the identifiers as
  integers, so \<open>7\<close> and \<open>07\<close> tie and the stable sort leaves them in the order in which
  the intermediate set was iterated. With the documents \<^verbatim>\<open>7.md\<close> and \<^verbatim>\<open>07.md\<close> and
  a selection report that references both, two iteration orders of that set give two
  different edge lists from the same files (\<^verbatim>\<open>main\<close> reads three selection records,
  so the directory holds three reports).
\<close>

theorem main_elements_depends_on_set_order:
  "iterates_set remdups \<and> iterates_set (\<lambda>xs. rev (remdups xs)) \<and>
   map edge_view (drop 3 (projr (main_elements remdups
       (Some [(''5.1 A.md'', Some ''a'')])
       (Some [(''7.md'', Some ''x''), (''07.md'', Some ''y'')])
       (Some [(''5.1 A.md'', Some ''/pages/7 /pages/07''), (''5.2 B.md'', Some ''''),
              (''5.3 C.md'', Some '''')]))))
     = [(Some (Str ''5.1''), Some (Str ''7'')), (Some (Str ''5.1''), Some (Str ''07''))] \<and>
   map edge_view (drop 3 (projr (main_elements (\<lambda>xs. rev (remdups xs))
       (Some [(''5.1 A.md'', Some ''a'')])
       (Some [(''7.md'', Some ''x''), (''07.md'', Some ''y'')])
       (Some [(''5.1 A.md'', Some ''/pages/7 /pages/07''), (''5.2 B.md'', Some ''''),
              (''5.3 C.md'', Some '''')]))))
     = [(Some (Str ''5.1''), Some (Str ''07'')), (Some (Str ''5.1''), Some (Str ''7''))] \<and>
   main_elements remdups
       (Some [(''5.1 A.md'', Some ''a'')])
       (Some [(''7.md'', Some ''x''), (''07.md'', Some ''y'')])
       (Some [(''5.1 A.md'', Some ''/pages/7 /pages/07''), (''5.2 B.md'', Some ''''),
              (''5.3 C.md'', Some '''')])
     \<noteq> main_elements (\<lambda>xs. rev (remdups xs))
       (Some [(''5.1 A.md'', Some ''a'')])
       (Some [(''7.md'', Some ''x''), (''07.md'', Some ''y'')])
       (Some [(''5.1 A.md'', Some ''/pages/7 /pages/07''), (''5.2 B.md'', Some ''''),
              (''5.3 C.md'', Some '''')])"
proof -
  have h: "iterates_set remdups" "iterates_set (\<lambda>xs. rev (remdups xs))"
    by (simp_all add: iterates_set_def)
  have a: "main_elements remdups
       (Some [(''5.1 A.md'', Some ''a'')])
       (Some [(''7.md'', Some ''x''), (''07.md'', Some ''y'')])
       (Some [(''5.1 A.md'', Some ''/pages/7 /pages/07''), (''5.2 B.md'', Some ''''),
              (''5.3 C.md'', Some '''')])
     = Inr (create_elements
         [\<lparr>control_id = ''5.1'', control_name = ''A'', control_content = ''a''\<rparr>]
         [\<lparr>document_id = ''7'', document_name = ''x'', document_content = ''x''\<rparr>,
          \<lparr>document_id = ''07'', document_name = ''y'', document_content = ''y''\<rparr>]
         [\<lparr>selected_id = ''5.1'', selected_name = ''A'',
                 relevant_document_ids = [''7'', ''07'']\<rparr>,
               \<lparr>selected_id = ''5.2'', selected_name = ''B'', relevant_document_ids = []\<rparr>,
               \<lparr>selected_id = ''5.3'', selected_name = ''C'', relevant_document_ids = []\<rparr>])"
    by (simp add: main_elements_def tie_controls tie_documents tie_selected_forward)
  have b: "main_elements (\<lambda>xs. rev (remdups xs))
       (Some [(''5.1 A.md'', Some ''a'')])
       (Some [(''7.md'', Some ''x''), (''07.md'', Some ''y'')])
       (Some [(''5.1 A.md'', Some ''/pages/7 /pages/07''), (''5.2 B.md'', Some ''''),
              (''5.3 C.md'', Some '''')])
     = Inr (create_elements
         [\<lparr>control_id = ''5.1'', control_name = ''A'', control_content = ''a''\<rparr>]
         [\<lparr>document_id = ''7'', document_name = ''x'', document_content = ''x''\<rparr>,
          \<lparr>document_id = ''07'', document_name = ''y'', document_content = ''y''\<rparr>]
         [\<lparr>selected_id = ''5.1'', selected_name = ''A'',
                 relevant_document_ids = [''07'', ''7'']\<rparr>,
               \<lparr>selected_id = ''5.2'', selected_name = ''B'', relevant_document_ids = []\<rparr>,
               \<lparr>selected_id = ''5.3'', selected_name = ''C'', relevant_document_ids = []\<rparr>])"
    by (simp add: main_elements_def tie_controls tie_documents tie_selected_backward)
  show ?thesis
    unfolding a b using h
    by (simp add: create_elements_closed control_element_def document_element_def
          edge_element_def edge_view_def data_get_def)
qed

section \<open>Properties of the document metadata\<close>



lemma url_text_nonempty: "url_text u \<Longrightarrow> u \<noteq> []"
  by (auto simp: url_text_def)













end
